theory Spec2Isabelle
  imports Main
begin

section \<open>The quiz client: \<open>QuizPage\<close>\<close>

text \<open>
  The component \<open>QuizPage\<close> keeps ten \<open>useState\<close> cells and two properties of the
  browser's \<open>window\<close> object. JavaScript numbers that the component handles are
  integer valued (a countdown, option indices, scores sent as JSON integers) and are
  modelled as \<open>int\<close>. A value that may be \<open>null\<close> or \<open>undefined\<close> is an \<open>option\<close>.
  Responses are taken to have the shape of the interfaces the source declares.
\<close>

subsection \<open>Payloads\<close>

record QuestionPayload =
  qp_id :: string
  qp_question :: string
  qp_options :: "string list"
  qp_difficulty :: "string option"
  qp_number :: int
  qp_total :: int

record StartResponse =
  sr_session_id :: string
  sr_question :: QuestionPayload
  sr_score :: int
  sr_questions_remaining :: int

record AnswerResponse =
  ar_correct :: bool
  ar_correct_index :: int
  ar_score :: int
  ar_quiz_complete :: bool
  ar_next_question :: "QuestionPayload option"
  ar_difficulty_level :: "int option"
  ar_questions_remaining :: "int option"

record UserData =
  user_id :: string
  email :: string
  preferred_genre :: string

text \<open>
  The three POST requests of the component, with the fields of their JSON bodies in the
  order the source writes them:
  \<open>/api/quiz/start\<close> (\<open>total_questions\<close>, \<open>user_id\<close> when present),
  \<open>/api/quiz/answer\<close> (\<open>session_id\<close>, \<open>question_id\<close>, \<open>answer_index\<close>, \<open>time_left\<close>) and
  \<open>/api/quiz/complete\<close> (\<open>session_id\<close>, \<open>final_score\<close>, \<open>correct_answers\<close>,
  \<open>total_questions\<close>).
\<close>

datatype request =
    PostStart int "string option"
  | PostAnswer string string int int
  | PostComplete string int int int

fun is_answer :: "request \<Rightarrow> bool" where
  "is_answer (PostAnswer _ _ _ _) = True"
| "is_answer _ = False"

subsection \<open>Component state\<close>

text \<open>
  The fields \<open>win_nextQuestion\<close> and \<open>win_lastCorrectIndex\<close> are
  \<open>window.__nextQuestion\<close> and \<open>window.__lastCorrectIndex\<close>; the others are the
  \<open>useState\<close> cells under their source names.
\<close>

record quiz_state =
  sessionId :: "string option"
  question :: "QuestionPayload option"
  selectedAnswer :: "int option"
  score :: int
  timeLeft :: int
  isAnswered :: bool
  quizComplete :: bool
  difficultyLevel :: int
  loading :: bool
  isTimeout :: bool
  win_nextQuestion :: "QuestionPayload option"
  win_lastCorrectIndex :: "int option"

definition initial :: quiz_state where
  "initial = \<lparr> sessionId = None, question = None, selectedAnswer = None, score = 0,
     timeLeft = 30, isAnswered = False, quizComplete = False, difficultyLevel = 1,
     loading = False, isTimeout = False,
     win_nextQuestion = None, win_lastCorrectIndex = None \<rparr>"

subsection \<open>Starting a quiz\<close>

text \<open>
  The function \<open>start\<close> of the mount effect, in two parts: what runs up to the
  \<open>await fetch\<close> (the request leaves here), and what runs when the fetch settles.
  \<open>None\<close> as the response stands for a rejected fetch or a body that is not JSON, which
  the source catches; \<open>finally\<close> clears \<open>loading\<close> on both paths.
\<close>

definition start_request :: "UserData option \<Rightarrow> request" where
  "start_request userData =
     PostStart 10 (case userData of
                     None \<Rightarrow> None
                   | Some u \<Rightarrow> if user_id u \<noteq> [] then Some (user_id u) else None)"

definition start :: "UserData option \<Rightarrow> quiz_state \<Rightarrow> quiz_state \<times> request list" where
  "start userData s = (s\<lparr>loading := True\<rparr>, [start_request userData])"

definition start_settled :: "StartResponse option \<Rightarrow> quiz_state \<Rightarrow> quiz_state" where
  "start_settled res s =
     (case res of
        None \<Rightarrow> s\<lparr>loading := False\<rparr>
      | Some data \<Rightarrow>
          s\<lparr> sessionId := Some (sr_session_id data),
             question := Some (sr_question data),
             score := sr_score data,
             timeLeft := 30,
             isAnswered := False,
             isTimeout := False,
             selectedAnswer := None,
             loading := False \<rparr>)"

subsection \<open>Answering\<close>

text \<open>
  \<open>completeQuiz\<close> reads \<open>sessionId\<close> from the render whose handler called it, so it
  takes that captured value as its first argument. The request is counted as issued
  whether or not the fetch later fails, which the source catches and logs.
\<close>

definition completeQuiz :: "string option \<Rightarrow> int \<Rightarrow> request list" where
  "completeQuiz sid finalScore =
     (case sid of
        None \<Rightarrow> []
      | Some x \<Rightarrow>
          if x = [] then []
          else (let correctAnswers = 1; totalQuestions = 10
                in [PostComplete x finalScore correctAnswers totalQuestions]))"

text \<open>
  \<open>handleAnswerSelect\<close> up to its \<open>await fetch\<close>: the guard, the two state updates and
  the request.
\<close>

definition handleAnswerSelect :: "quiz_state \<Rightarrow> int \<Rightarrow> quiz_state \<times> request list" where
  "handleAnswerSelect s answerIndex =
     (if isAnswered s then (s, [])
      else (case question s of
              None \<Rightarrow> (s, [])
            | Some q \<Rightarrow>
                (case sessionId s of
                   None \<Rightarrow> (s, [])
                 | Some sid \<Rightarrow>
                     if sid = [] then (s, [])
                     else (s\<lparr>selectedAnswer := Some answerIndex, isAnswered := True\<rparr>,
                           [PostAnswer sid (qp_id q) answerIndex (timeLeft s)]))))"

text \<open>
  What \<open>handleAnswerSelect\<close> does once its fetch has settled. \<open>sid\<close> is the
  \<open>sessionId\<close> of the render that started the handler (the closure \<open>completeQuiz\<close>
  reads); \<open>s\<close> is the state at the time of settling, which the setters overwrite.
  \<open>None\<close> is a failed fetch, caught and logged. The assignment to
  \<open>__lastCorrectIndex\<close> follows \<open>await completeQuiz\<close>, whose outcome it does not
  depend on.
\<close>

definition handleAnswerSelect_settled ::
  "string option \<Rightarrow> AnswerResponse option \<Rightarrow> quiz_state \<Rightarrow> quiz_state \<times> request list" where
  "handleAnswerSelect_settled sid res s =
     (case res of
        None \<Rightarrow> (s, [])
      | Some data \<Rightarrow>
          (let s1 = s\<lparr>score := ar_score data\<rparr>;
               s2 = (case ar_difficulty_level data of
                       None \<Rightarrow> s1
                     | Some d \<Rightarrow> if d \<noteq> 0 then s1\<lparr>difficultyLevel := d\<rparr> else s1);
               (s3, reqs) =
                 (if ar_quiz_complete data
                  then (s2\<lparr>quizComplete := True\<rparr>, completeQuiz sid (ar_score data))
                  else (case ar_next_question data of
                          None \<Rightarrow> (s2, [])
                        | Some nq \<Rightarrow> (s2\<lparr>win_nextQuestion := Some nq\<rparr>, [])))
           in (s3\<lparr>win_lastCorrectIndex := Some (ar_correct_index data)\<rparr>, reqs)))"

text \<open>\<open>handleTimeout\<close>, split the same way.\<close>

definition handleTimeout :: "quiz_state \<Rightarrow> quiz_state \<times> request list" where
  "handleTimeout s =
     (if isAnswered s then (s, [])
      else (case question s of
              None \<Rightarrow> (s, [])
            | Some q \<Rightarrow>
                (case sessionId s of
                   None \<Rightarrow> (s, [])
                 | Some sid \<Rightarrow>
                     if sid = [] then (s, [])
                     else (s\<lparr>isAnswered := True, selectedAnswer := None, isTimeout := True\<rparr>,
                           [PostAnswer sid (qp_id q) (- 1) 0]))))"

definition handleTimeout_settled ::
  "string option \<Rightarrow> AnswerResponse option \<Rightarrow> quiz_state \<Rightarrow> quiz_state \<times> request list" where
  "handleTimeout_settled sid res s =
     (case res of
        None \<Rightarrow> (s, [])
      | Some data \<Rightarrow>
          (let s1 = s\<lparr>score := ar_score data\<rparr>;
               s2 = (case ar_difficulty_level data of
                       None \<Rightarrow> s1
                     | Some d \<Rightarrow> if d \<noteq> 0 then s1\<lparr>difficultyLevel := d\<rparr> else s1);
               (s3, reqs) =
                 (if ar_quiz_complete data
                  then (s2\<lparr>quizComplete := True\<rparr>, completeQuiz sid (ar_score data))
                  else (case ar_next_question data of
                          None \<Rightarrow> (s2, [])
                        | Some nq \<Rightarrow> (s2\<lparr>win_nextQuestion := Some nq\<rparr>, [])))
           in (s3\<lparr>win_lastCorrectIndex := Some (ar_correct_index data)\<rparr>, reqs)))"

subsection \<open>Next question\<close>

definition nextQuestion :: "quiz_state \<Rightarrow> quiz_state" where
  "nextQuestion s =
     (case win_nextQuestion s of
        None \<Rightarrow> s
      | Some nextQ \<Rightarrow>
          s\<lparr> question := Some nextQ,
             selectedAnswer := None,
             isAnswered := False,
             isTimeout := False,
             timeLeft := 30 \<rparr>)"

subsection \<open>The countdown effect\<close>

text \<open>
  The second effect runs after every render in which \<open>timeLeft\<close>, \<open>isAnswered\<close>,
  \<open>quizComplete\<close> or \<open>question\<close> changed. Its first branch arms a one-second timer
  whose callback stores \<open>timeLeft - 1\<close>; the cleanup cancels the timer when the
  effect runs again, so a timer fires only in a state that armed it. Its second
  branch calls \<open>handleTimeout\<close>. Running the effect again in a state it has already
  handled does nothing new, so the model runs it after every event.
\<close>

definition timer_armed :: "quiz_state \<Rightarrow> bool" where
  "timer_armed s = (timeLeft s > 0 \<and> \<not> isAnswered s \<and> \<not> quizComplete s)"

definition countdown_effect :: "quiz_state \<Rightarrow> quiz_state \<times> request list" where
  "countdown_effect s =
     (if timeLeft s > 0 \<and> \<not> isAnswered s \<and> \<not> quizComplete s then (s, [])
      else if timeLeft s = 0 \<and> \<not> isAnswered s \<and> question s \<noteq> None then handleTimeout s
      else (s, []))"

subsection \<open>What is on screen\<close>

text \<open>
  The render returns early while \<open>loading\<close>, when \<open>quizComplete\<close> and when there is
  no question. Otherwise it shows one button per option, disabled once
  \<open>isAnswered\<close>, and the "Next Question" button when \<open>isAnswered\<close>, not
  \<open>quizComplete\<close> and \<open>window.__nextQuestion\<close> is set.
\<close>

definition question_shown :: "quiz_state \<Rightarrow> bool" where
  "question_shown s = (\<not> loading s \<and> \<not> quizComplete s \<and> question s \<noteq> None)"

definition option_clickable :: "quiz_state \<Rightarrow> int \<Rightarrow> bool" where
  "option_clickable s i =
     (question_shown s \<and> \<not> isAnswered s \<and>
      (case question s of
         None \<Rightarrow> False
       | Some q \<Rightarrow> 0 \<le> i \<and> i < int (length (qp_options q))))"

definition next_button_shown :: "quiz_state \<Rightarrow> bool" where
  "next_button_shown s =
     (question_shown s \<and> isAnswered s \<and> \<not> quizComplete s \<and> win_nextQuestion s \<noteq> None)"

subsection \<open>Events\<close>

text \<open>
  One step of the page: an event changes the state and may issue requests, then the
  countdown effect runs. A handler reads the state of the latest render, React having
  rendered again between two events. A settled fetch carries the \<open>sessionId\<close> its handler
  captured; the model lets any settled fetch arrive at any time, which covers every
  order in which the browser can deliver them.
\<close>

datatype event =
    Mount "UserData option"
  | StartSettled "StartResponse option"
  | Tick
  | ClickOption int
  | AnswerSettled "string option" "AnswerResponse option"
  | TimeoutSettled "string option" "AnswerResponse option"
  | ClickNext

fun handle :: "quiz_state \<Rightarrow> event \<Rightarrow> quiz_state \<times> request list" where
  "handle s (Mount userData) = start userData s"
| "handle s (StartSettled res) = (start_settled res s, [])"
| "handle s Tick = (if timer_armed s then (s\<lparr>timeLeft := timeLeft s - 1\<rparr>, []) else (s, []))"
| "handle s (ClickOption i) = (if option_clickable s i then handleAnswerSelect s i else (s, []))"
| "handle s (AnswerSettled sid res) = handleAnswerSelect_settled sid res s"
| "handle s (TimeoutSettled sid res) = handleTimeout_settled sid res s"
| "handle s ClickNext = (if next_button_shown s then (nextQuestion s, []) else (s, []))"

definition step :: "quiz_state \<Rightarrow> event \<Rightarrow> quiz_state \<times> request list" where
  "step s e =
     (let (s1, reqs1) = handle s e;
          (s2, reqs2) = countdown_effect s1
      in (s2, reqs1 @ reqs2))"

fun run :: "quiz_state \<Rightarrow> event list \<Rightarrow> quiz_state \<times> request list" where
  "run s [] = (s, [])"
| "run s (e # es) =
     (let (s1, reqs1) = step s e;
          (s2, reqs2) = run s1 es
      in (s2, reqs1 @ reqs2))"

text \<open>
  The events that put a question on screen with \<open>isAnswered\<close> cleared: the "Next
  Question" button and a settled start.
\<close>

fun resets :: "event \<Rightarrow> bool" where
  "resets ClickNext = True"
| "resets (StartSettled (Some _)) = True"
| "resets _ = False"


subsection \<open>Sample data\<close>

definition sample_question :: QuestionPayload where
  "sample_question = \<lparr> qp_id = ''q1'', qp_question = ''Who directed Jaws?'',
     qp_options = [''Spielberg'', ''Lucas'', ''Scott'', ''Nolan''],
     qp_difficulty = Some ''easy'', qp_number = 1, qp_total = 10 \<rparr>"

definition sample_second :: QuestionPayload where
  "sample_second = \<lparr> qp_id = ''q2'', qp_question = ''Which film won Best Picture for 1994?'',
     qp_options = [''Pulp Fiction'', ''Forrest Gump'', ''Speed'', ''Quiz Show''],
     qp_difficulty = None, qp_number = 2, qp_total = 10 \<rparr>"

definition sample_start :: StartResponse where
  "sample_start = \<lparr> sr_session_id = ''s1'', sr_question = sample_question,
     sr_score = 0, sr_questions_remaining = 10 \<rparr>"

definition sample_reply :: AnswerResponse where
  "sample_reply = \<lparr> ar_correct = True, ar_correct_index = 0, ar_score = 25,
     ar_quiz_complete = False, ar_next_question = Some sample_second,
     ar_difficulty_level = Some 2, ar_questions_remaining = Some 9 \<rparr>"

definition sample_last_reply :: AnswerResponse where
  "sample_last_reply = \<lparr> ar_correct = False, ar_correct_index = 1, ar_score = 140,
     ar_quiz_complete = True, ar_next_question = None,
     ar_difficulty_level = Some 0, ar_questions_remaining = Some 0 \<rparr>"

definition playing :: quiz_state where
  "playing = start_settled (Some sample_start) initial"

section \<open>The quiz session engine\<close>

text \<open>
  The engine runs in the Flask backend, which is not among the sources at hand: only
  its caller, \<open>QuizPage\<close>, is. Every definition of this section is therefore written
  from the specification of the engine. Scores and remaining time are quantities
  that the specification gives as non-negative and are natural numbers here; an
  answer index is an integer, since the timeout sentinel is negative.
\<close>

text \<open>
  Modelled from the spec: the backend's session status, which is not among the
  sources. "\<open>status\<close>: {ACTIVE, COMPLETE}. Terminal once COMPLETE."
\<close>

datatype status = ACTIVE | COMPLETE

text \<open>
  Modelled from the spec: the backend's error taxonomy, which is not among the
  sources: \<open>InvalidConfig\<close>, \<open>SessionNotFound\<close>, \<open>QuestionMismatch\<close>,
  \<open>UpstreamUnavailable\<close>.
\<close>

datatype error = InvalidConfig | SessionNotFound | QuestionMismatch | UpstreamUnavailable

text \<open>
  Modelled from the spec: the backend's Question entity, which is not among the
  sources: an id, the prompt text, the ordered answer options, \<open>correct_index\<close> (a
  position in the options, hence a natural number) and the difficulty tag.
\<close>

record Question =
  q_id :: string
  q_prompt :: string
  q_options :: "string list"
  q_correct_index :: nat
  q_difficulty :: string

text \<open>
  Modelled from the spec: the backend's per-question log record, which is not among
  the sources: "(chosen index or timeout sentinel, correctness, time remaining at
  answer)".
\<close>

record LogEntry =
  le_answer_index :: int
  le_correct :: bool
  le_time_left :: nat

text \<open>
  Modelled from the spec: the backend's QuizSession, which is not among the sources,
  with the fields of the data model. The two run counters hold the streaks that the
  difficulty adaptation policy counts.
\<close>

record QuizSession =
  qs_session_id :: string
  qs_user_id :: "string option"
  qs_questions :: "Question list"
  qs_current_index :: nat
  qs_score :: nat
  qs_difficulty_level :: nat
  qs_correct_run :: nat
  qs_incorrect_run :: nat
  qs_log :: "LogEntry list"
  qs_status :: status

text \<open>
  Modelled from the spec: the backend's Session Store, which is not among the
  sources: a mapping from a session identifier to quiz progress.
\<close>

type_synonym session_store = "string \<rightharpoonup> QuizSession"

text \<open>
  Modelled from the spec: the backend's configuration, which is not among the
  sources. The specification leaves these open: the base points of its example
  scoring formula, the configured range of the difficulty level, and the two
  configurable run lengths of the adaptation policy.
\<close>

record EngineConfig =
  base_points :: nat
  level_min :: nat
  level_max :: nat
  raise_after :: nat
  lower_after :: nat

text \<open>
  Modelled from the spec: what the backend's configuration, which is not among the
  sources, has to satisfy: positive base points and a range of positive levels, as in
  the specification's example range from 1 to 5.
\<close>

definition valid_config :: "EngineConfig \<Rightarrow> bool" where
  "valid_config cfg = (0 < base_points cfg \<and> 0 < level_min cfg \<and> level_min cfg \<le> level_max cfg)"

text \<open>
  Modelled from the spec: the backend's sanitized question, which is not among the
  sources: "id, prompt, options, difficulty tag, position number, total count", the
  correct index stripped.
\<close>

record SanitizedQuestion =
  sq_id :: string
  sq_prompt :: string
  sq_options :: "string list"
  sq_difficulty :: string
  sq_number :: nat
  sq_total :: nat

text \<open>
  Modelled from the spec: the result of the backend's \<open>start\<close>, which is not among
  the sources: "\<open>{session_id, first_question (sanitized), score=0, questions_remaining}\<close>".
\<close>

record StartResult =
  st_session_id :: string
  st_question :: "SanitizedQuestion option"
  st_score :: nat
  st_questions_remaining :: nat

text \<open>
  Modelled from the spec: the result of the backend's \<open>submitAnswer\<close>, which is not
  among the sources: "\<open>{correct, correct_index, score, quiz_complete, next_question?,
  difficulty_level, questions_remaining}\<close>".
\<close>

record SubmitResult =
  res_correct :: bool
  res_correct_index :: nat
  res_score :: nat
  res_quiz_complete :: bool
  res_next_question :: "SanitizedQuestion option"
  res_difficulty_level :: nat
  res_questions_remaining :: nat

text \<open>
  Modelled from the spec: the backend's timeout sentinel, which is not among the
  sources: "\<open>TIMEOUT_SENTINEL\<close> (convention: -1)".
\<close>

definition TIMEOUT_SENTINEL :: int where
  "TIMEOUT_SENTINEL = - 1"

text \<open>
  Modelled from the spec: the backend's sanitizing of a question, which is not among
  the sources. The position number counts from one.
\<close>

definition sanitize :: "Question \<Rightarrow> nat \<Rightarrow> nat \<Rightarrow> SanitizedQuestion" where
  "sanitize q index count =
     \<lparr> sq_id = q_id q, sq_prompt = q_prompt q, sq_options = q_options q,
       sq_difficulty = q_difficulty q, sq_number = index + 1, sq_total = count \<rparr>"

text \<open>
  Modelled from the spec: the backend's current question of a session, which is not
  among the sources: the question at \<open>current_index\<close> of the ordered sequence, and none
  once the index has reached the length.
\<close>

definition current_question :: "QuizSession \<Rightarrow> Question option" where
  "current_question s =
     (if qs_current_index s < length (qs_questions s)
      then Some (qs_questions s ! qs_current_index s) else None)"

text \<open>
  Modelled from the spec: the backend's sanitized view of the current question, which
  is not among the sources.
\<close>

definition sanitized_current :: "QuizSession \<Rightarrow> SanitizedQuestion option" where
  "sanitized_current s =
     (case current_question s of
        None \<Rightarrow> None
      | Some q \<Rightarrow> Some (sanitize q (qs_current_index s) (length (qs_questions s))))"

text \<open>
  Modelled from the spec: the backend's \<open>start\<close>, which is not among the sources (named
  \<open>engine_start\<close> here, \<open>start\<close> being the client's function). It fails with
  \<open>InvalidConfig\<close> if \<open>total_questions \<le> 0\<close>; it selects \<open>total_questions\<close> questions
  from the Question Source, an external collaborator passed in as \<open>source\<close>, and a
  source that is unreachable or does not supply that many is \<open>UpstreamUnavailable\<close>;
  it creates the session with \<open>status = ACTIVE\<close>, \<open>current_index = 0\<close>, \<open>score = 0\<close> and
  the starting level 1. The session token comes from outside as \<open>new_id\<close>.
\<close>

definition engine_start ::
  "session_store \<Rightarrow> string \<Rightarrow> string option \<Rightarrow> int \<Rightarrow> (nat \<Rightarrow> Question list option)
     \<Rightarrow> (error + StartResult) \<times> session_store" where
  "engine_start store new_id uid total_questions source =
     (if total_questions \<le> 0 then (Inl InvalidConfig, store)
      else (case source (nat total_questions) of
              None \<Rightarrow> (Inl UpstreamUnavailable, store)
            | Some selected \<Rightarrow>
                if length selected \<noteq> nat total_questions then (Inl UpstreamUnavailable, store)
                else (let s = \<lparr> qs_session_id = new_id, qs_user_id = uid,
                                 qs_questions = selected, qs_current_index = 0, qs_score = 0,
                                 qs_difficulty_level = 1, qs_correct_run = 0,
                                 qs_incorrect_run = 0, qs_log = [], qs_status = ACTIVE \<rparr>
                      in (Inr \<lparr> st_session_id = new_id, st_question = sanitized_current s,
                                st_score = qs_score s,
                                st_questions_remaining = length selected \<rparr>,
                          store(new_id \<mapsto> s)))))"

text \<open>
  Modelled from the spec: the backend's grading, which is not among the sources:
  "correct iff \<open>answer_index == question.correct_index\<close>".
\<close>

definition grade :: "Question \<Rightarrow> int \<Rightarrow> bool" where
  "grade q answer_index = (answer_index = int (q_correct_index q))"

text \<open>
  Modelled from the spec: the backend's points value, which is not among the sources.
  The specification leaves the formula open and gives
  "\<open>base_points * difficulty_level + time_left_bonus\<close>" as its example; this is that
  example, with the remaining time itself as the bonus.
\<close>

definition points :: "EngineConfig \<Rightarrow> nat \<Rightarrow> nat \<Rightarrow> nat" where
  "points cfg level time_left = base_points cfg * level + time_left"

text \<open>
  Modelled from the spec: the backend's clamping of the level "to a configured
  range", which is not among the sources.
\<close>

definition clamp_level :: "EngineConfig \<Rightarrow> nat \<Rightarrow> nat" where
  "clamp_level cfg l = max (level_min cfg) (min (level_max cfg) l)"

text \<open>
  Modelled from the spec: the backend's difficulty adaptation, which is not among the
  sources: "increment after a configurable run of consecutive correct answers;
  decrement after a configurable run of consecutive incorrect/timeout answers; no
  change otherwise", clamped. A run that has moved the level starts again from zero.
\<close>

definition adapt_difficulty :: "EngineConfig \<Rightarrow> bool \<Rightarrow> QuizSession \<Rightarrow> QuizSession" where
  "adapt_difficulty cfg correct s =
     (if correct then
        (if raise_after cfg \<le> qs_correct_run s + 1
         then s\<lparr> qs_difficulty_level := clamp_level cfg (qs_difficulty_level s + 1),
                 qs_correct_run := 0, qs_incorrect_run := 0 \<rparr>
         else s\<lparr> qs_correct_run := qs_correct_run s + 1, qs_incorrect_run := 0 \<rparr>)
      else
        (if lower_after cfg \<le> qs_incorrect_run s + 1
         then s\<lparr> qs_difficulty_level := clamp_level cfg (qs_difficulty_level s - 1),
                 qs_correct_run := 0, qs_incorrect_run := 0 \<rparr>
         else s\<lparr> qs_incorrect_run := qs_incorrect_run s + 1, qs_correct_run := 0 \<rparr>))"

text \<open>
  Modelled from the spec: the part of the backend's \<open>submitAnswer\<close>, which is not among
  the sources, that runs once the session and the question are accepted. It grades;
  on a correct answer it adds the points for the remaining time and the current
  level, and leaves the score otherwise; it records the answer in the log; it adapts
  the level; it advances \<open>current_index\<close>; and if the sequence is exhausted it sets
  \<open>status = COMPLETE\<close> and returns \<open>quiz_complete\<close> with no next question, otherwise
  the next sanitized question.
\<close>

definition grade_and_advance ::
  "EngineConfig \<Rightarrow> QuizSession \<Rightarrow> Question \<Rightarrow> int \<Rightarrow> nat \<Rightarrow> SubmitResult \<times> QuizSession" where
  "grade_and_advance cfg s q answer_index time_left =
     (let correct = grade q answer_index;
          gained = (if correct then points cfg (qs_difficulty_level s) time_left else 0);
          s1 = s\<lparr> qs_score := qs_score s + gained,
                  qs_log := qs_log s @ [\<lparr> le_answer_index = answer_index, le_correct = correct,
                                           le_time_left = time_left \<rparr>] \<rparr>;
          s2 = adapt_difficulty cfg correct s1;
          s3 = s2\<lparr> qs_current_index := qs_current_index s2 + 1 \<rparr>;
          exhausted = (length (qs_questions s3) \<le> qs_current_index s3);
          s4 = (if exhausted then s3\<lparr> qs_status := COMPLETE \<rparr> else s3)
      in (\<lparr> res_correct = correct, res_correct_index = q_correct_index q,
             res_score = qs_score s4, res_quiz_complete = exhausted,
             res_next_question = (if exhausted then None else sanitized_current s4),
             res_difficulty_level = qs_difficulty_level s4,
             res_questions_remaining = length (qs_questions s4) - qs_current_index s4 \<rparr>,
          s4))"

text \<open>
  Modelled from the spec: the backend's \<open>submitAnswer\<close>, which is not among the
  sources. It "fails with \<open>SessionNotFound\<close> if \<open>session_id\<close> unknown or session already
  COMPLETE" and "with \<open>QuestionMismatch\<close> if \<open>question_id\<close> does not match the session's
  current question"; an error leaves the store as it was. The result is paired with
  the store after the call.
\<close>

definition submitAnswer ::
  "EngineConfig \<Rightarrow> session_store \<Rightarrow> string \<Rightarrow> string \<Rightarrow> int \<Rightarrow> nat
     \<Rightarrow> (error + SubmitResult) \<times> session_store" where
  "submitAnswer cfg store session_id question_id answer_index time_left =
     (case store session_id of
        None \<Rightarrow> (Inl SessionNotFound, store)
      | Some s \<Rightarrow>
          if qs_status s = COMPLETE then (Inl SessionNotFound, store)
          else (case current_question s of
                  None \<Rightarrow> (Inl QuestionMismatch, store)
                | Some q \<Rightarrow>
                    if q_id q \<noteq> question_id then (Inl QuestionMismatch, store)
                    else (let (res, s') = grade_and_advance cfg s q answer_index time_left
                          in (Inr res, store(session_id \<mapsto> s')))))"

text \<open>
  Modelled from the spec: a sequence of calls of the backend's \<open>submitAnswer\<close>, which is
  not among the sources, on one session: each call is a question id, an answer index
  and the remaining time, and works on the store the call before it left.
\<close>

fun submit_all ::
  "EngineConfig \<Rightarrow> session_store \<Rightarrow> string \<Rightarrow> (string \<times> int \<times> nat) list
     \<Rightarrow> (error + SubmitResult) list \<times> session_store" where
  "submit_all cfg store session_id [] = ([], store)"
| "submit_all cfg store session_id ((question_id, answer_index, time_left) # calls) =
     (let (r, store1) = submitAnswer cfg store session_id question_id answer_index time_left;
          (rs, store2) = submit_all cfg store1 session_id calls
      in (r # rs, store2))"

text \<open>
  Modelled from the spec: the scores that the responses of the backend's
  \<open>submitAnswer\<close>, which is not among the sources, return, in the order of the calls.
\<close>

fun returned_scores :: "(error + SubmitResult) list \<Rightarrow> nat list" where
  "returned_scores [] = []"
| "returned_scores (Inl e # rs) = returned_scores rs"
| "returned_scores (Inr r # rs) = res_score r # returned_scores rs"

text \<open>
  Modelled from the spec: the number of successful calls of the backend's
  \<open>submitAnswer\<close>, which is not among the sources, in a list of results.
\<close>

definition successes :: "(error + SubmitResult) list \<Rightarrow> nat" where
  "successes rs = length (filter (\<lambda>r. \<not> isl r) rs)"

text \<open>
  Modelled from the spec: the questions a session of the backend, which is not among
  the sources, still has to grade before it is COMPLETE.
\<close>

definition remaining :: "QuizSession \<Rightarrow> nat" where
  "remaining s = (if qs_status s = COMPLETE then 0 else length (qs_questions s) - qs_current_index s)"

text \<open>
  Modelled from the spec: the invariant of a session of the backend, which is not
  among the sources, that an ACTIVE session has a current question.
\<close>

definition well_formed :: "QuizSession \<Rightarrow> bool" where
  "well_formed s = (qs_status s = ACTIVE \<longrightarrow> qs_current_index s < length (qs_questions s))"

subsection \<open>Sample session\<close>

definition demo_config :: EngineConfig where
  "demo_config = \<lparr> base_points = 10, level_min = 1, level_max = 5, raise_after = 2, lower_after = 2 \<rparr>"

definition demo_questions :: "Question list" where
  "demo_questions =
     [\<lparr> q_id = ''Q1'', q_prompt = ''Who directed Alien?'',
         q_options = [''Scott'', ''Cameron'', ''Fincher''], q_correct_index = 0, q_difficulty = ''easy'' \<rparr>,
      \<lparr> q_id = ''Q2'', q_prompt = ''Year of Casablanca?'',
         q_options = [''1939'', ''1942'', ''1946''], q_correct_index = 1, q_difficulty = ''hard'' \<rparr>]"

definition demo_source :: "nat \<Rightarrow> Question list option" where
  "demo_source n = (if n \<le> length demo_questions then Some (take n demo_questions) else None)"

definition demo_store :: session_store where
  "demo_store = snd (engine_start Map.empty ''S'' None 2 demo_source)"

definition demo_calls :: "(string \<times> int \<times> nat) list" where
  "demo_calls = [(''Q1'', 0, 20), (''Q9'', 2, 7), (''Q2'', - 1, 0)]"

definition demo_session :: QuizSession where
  "demo_session = \<lparr> qs_session_id = ''S'', qs_user_id = None,
      qs_questions = demo_questions, qs_current_index = 0, qs_score = 0,
      qs_difficulty_level = 1, qs_correct_run = 0, qs_incorrect_run = 0, qs_log = [],
      qs_status = ACTIVE \<rparr>"

definition demo_first :: Question where
  "demo_first = \<lparr> q_id = ''Q1'', q_prompt = ''Who directed Alien?'',
         q_options = [''Scott'', ''Cameron'', ''Fincher''], q_correct_index = 0, q_difficulty = ''easy'' \<rparr>"

section \<open>Properties of the client\<close>

subsection \<open>Countdown\<close>

lemma handle_tick_armed:
  "\<not> isAnswered s \<Longrightarrow> \<not> quizComplete s \<Longrightarrow> 1 < timeLeft s \<Longrightarrow>
   step s Tick = (s\<lparr>timeLeft := timeLeft s - 1\<rparr>, [])"
  by (simp add: step_def timer_armed_def countdown_effect_def)

lemma handle_tick_last:
  "\<not> isAnswered s \<Longrightarrow> \<not> quizComplete s \<Longrightarrow> timeLeft s = 1 \<Longrightarrow>
   question s = Some q \<Longrightarrow> sessionId s = Some sid \<Longrightarrow> sid \<noteq> [] \<Longrightarrow>
   step s Tick = (s\<lparr>timeLeft := 0, isAnswered := True, selectedAnswer := None, isTimeout := True\<rparr>,
                  [PostAnswer sid (qp_id q) (- 1) 0])"
  by (simp add: step_def timer_armed_def countdown_effect_def handleTimeout_def)

lemma run_ticks:
  "\<not> isAnswered s \<Longrightarrow> \<not> quizComplete s \<Longrightarrow> timeLeft s = int n \<Longrightarrow> 0 < n \<Longrightarrow>
   question s = Some q \<Longrightarrow> sessionId s = Some sid \<Longrightarrow> sid \<noteq> [] \<Longrightarrow>
   run s (replicate n Tick) =
     (s\<lparr>timeLeft := 0, isAnswered := True, selectedAnswer := None, isTimeout := True\<rparr>,
      [PostAnswer sid (qp_id q) (- 1) 0])"
proof (induction n arbitrary: s)
  case 0
  then show ?case by simp
next
  case (Suc n)
  show ?case
  proof (cases "n = 0")
    case True
    with Suc.prems show ?thesis by (simp add: handle_tick_last)
  next
    case False
    let ?s1 = "s\<lparr>timeLeft := timeLeft s - 1\<rparr>"
    from False Suc.prems have st: "step s Tick = (?s1, [])"
      by (simp add: handle_tick_armed)
    from False Suc.prems have "run ?s1 (replicate n Tick) =
       (?s1\<lparr>timeLeft := 0, isAnswered := True, selectedAnswer := None, isTimeout := True\<rparr>,
        [PostAnswer sid (qp_id q) (- 1) 0])"
      by (intro Suc.IH) simp_all
    with st show ?thesis by simp
  qed
qed

lemma run_ticks_quiet:
  "\<not> isAnswered s \<Longrightarrow> \<not> quizComplete s \<Longrightarrow> timeLeft s = int m + int k \<Longrightarrow> 0 < k \<Longrightarrow>
   run s (replicate m Tick) = (s\<lparr>timeLeft := int k\<rparr>, [])"
proof (induction m arbitrary: s)
  case 0
  then show ?case by simp
next
  case (Suc m)
  let ?s1 = "s\<lparr>timeLeft := timeLeft s - 1\<rparr>"
  from Suc.prems have st: "step s Tick = (?s1, [])"
    by (simp add: handle_tick_armed)
  from Suc.prems have "run ?s1 (replicate m Tick) = (?s1\<lparr>timeLeft := int k\<rparr>, [])"
    by (intro Suc.IH) simp_all
  with st show ?case by simp
qed

subsection \<open>Requests per question and per event\<close>

lemma completeQuiz_no_answer: "filter is_answer (completeQuiz sid fs) = []"
  by (simp add: completeQuiz_def split: option.splits)

lemma handleAnswerSelect_answered: "isAnswered s \<Longrightarrow> handleAnswerSelect s i = (s, [])"
  by (simp add: handleAnswerSelect_def)

lemma handleTimeout_answered: "isAnswered s \<Longrightarrow> handleTimeout s = (s, [])"
  by (simp add: handleTimeout_def)

lemma countdown_effect_answered: "isAnswered s \<Longrightarrow> countdown_effect s = (s, [])"
  by (simp add: countdown_effect_def)

lemma handleAnswerSelect_cases:
  "handleAnswerSelect s i = (s, []) \<or>
   (\<exists>sid qid. handleAnswerSelect s i =
      (s\<lparr>selectedAnswer := Some i, isAnswered := True\<rparr>, [PostAnswer sid qid i (timeLeft s)]))"
  by (auto simp add: handleAnswerSelect_def split: option.splits)

lemma handleTimeout_cases:
  "handleTimeout s = (s, []) \<or>
   (\<exists>sid qid. handleTimeout s =
      (s\<lparr>isAnswered := True, selectedAnswer := None, isTimeout := True\<rparr>, [PostAnswer sid qid (- 1) 0]))"
  by (auto simp add: handleTimeout_def split: option.splits)

lemma countdown_effect_cases:
  "countdown_effect s = (s, []) \<or>
   (\<exists>sid qid. countdown_effect s =
      (s\<lparr>isAnswered := True, selectedAnswer := None, isTimeout := True\<rparr>, [PostAnswer sid qid (- 1) 0]))"
  using handleTimeout_cases [of s] by (auto simp add: countdown_effect_def)

lemma settled_answer_keeps:
  "isAnswered (fst (handleAnswerSelect_settled sid res s)) = isAnswered s \<and>
   filter is_answer (snd (handleAnswerSelect_settled sid res s)) = []"
  by (simp add: handleAnswerSelect_settled_def Let_def completeQuiz_no_answer split: option.splits)

lemma settled_timeout_keeps:
  "isAnswered (fst (handleTimeout_settled sid res s)) = isAnswered s \<and>
   filter is_answer (snd (handleTimeout_settled sid res s)) = []"
  by (simp add: handleTimeout_settled_def Let_def completeQuiz_no_answer split: option.splits)

lemma handle_no_reset:
  "\<not> resets e \<Longrightarrow>
     (isAnswered (fst (handle s e)) = isAnswered s \<and> filter is_answer (snd (handle s e)) = []) \<or>
     (\<not> isAnswered s \<and> isAnswered (fst (handle s e)) \<and> length (filter is_answer (snd (handle s e))) = 1)"
proof (cases e)
  case (Mount u)
  then show ?thesis by (simp add: start_def start_request_def)
next
  case (StartSettled res)
  assume "\<not> resets e"
  with StartSettled have "res = None" by (cases res) simp_all
  with StartSettled show ?thesis by (simp add: start_settled_def)
next
  case Tick
  then show ?thesis by simp
next
  case (ClickOption i)
  then show ?thesis
    using handleAnswerSelect_cases [of s i] handleAnswerSelect_answered [of s i]
    by (cases "isAnswered s"; cases "option_clickable s i") auto
next
  case (AnswerSettled sid res)
  then show ?thesis using settled_answer_keeps [of sid res s] by simp
next
  case (TimeoutSettled sid res)
  then show ?thesis using settled_timeout_keeps [of sid res s] by simp
next
  case ClickNext
  assume "\<not> resets e"
  with ClickNext show ?thesis by simp
qed

lemma step_no_reset:
  assumes "\<not> resets e"
  shows "(isAnswered (fst (step s e)) = isAnswered s \<and> filter is_answer (snd (step s e)) = []) \<or>
     (\<not> isAnswered s \<and> isAnswered (fst (step s e)) \<and> length (filter is_answer (snd (step s e))) = 1)"
proof -
  obtain s1 r1 where h: "handle s e = (s1, r1)" by (cases "handle s e")
  have st: "step s e = (fst (countdown_effect s1), r1 @ snd (countdown_effect s1))"
    by (simp add: step_def h split: prod.splits)
  from handle_no_reset [OF assms, of s] h
  consider (same) "isAnswered s1 = isAnswered s" "filter is_answer r1 = []"
    | (sent) "\<not> isAnswered s" "isAnswered s1" "length (filter is_answer r1) = 1"
    by auto
  then show ?thesis
  proof cases
    case same
    then show ?thesis
      using countdown_effect_cases [of s1] countdown_effect_answered [of s1] st
      by (cases "isAnswered s1") auto
  next
    case sent
    then show ?thesis using countdown_effect_answered [of s1] st by simp
  qed
qed

lemma run_answered:
  "isAnswered s \<Longrightarrow> \<forall>e\<in>set es. \<not> resets e \<Longrightarrow>
   isAnswered (fst (run s es)) \<and> filter is_answer (snd (run s es)) = []"
proof (induction es arbitrary: s)
  case Nil
  then show ?case by simp
next
  case (Cons e es)
  from Cons.prems have nr: "\<not> resets e" by simp
  from step_no_reset [OF nr, of s] Cons.prems(1)
  have a: "isAnswered (fst (step s e))" and b: "filter is_answer (snd (step s e)) = []" by auto
  from Cons.IH [OF a] Cons.prems(2)
  have "isAnswered (fst (run (fst (step s e)) es)) \<and> filter is_answer (snd (run (fst (step s e)) es)) = []"
    by simp
  with b show ?case by (simp add: split_beta)
qed

lemma run_at_most_one:
  "\<forall>e\<in>set es. \<not> resets e \<Longrightarrow> length (filter is_answer (snd (run s es))) \<le> 1"
proof (induction es arbitrary: s)
  case Nil
  then show ?case by simp
next
  case (Cons e es)
  from Cons.prems have nr: "\<not> resets e" and rest: "\<forall>e\<in>set es. \<not> resets e" by simp_all
  from step_no_reset [OF nr, of s]
  consider (quiet) "filter is_answer (snd (step s e)) = []"
    | (sent) "isAnswered (fst (step s e))" "length (filter is_answer (snd (step s e))) = 1"
    by auto
  then show ?case
  proof cases
    case quiet
    with Cons.IH [OF rest, of "fst (step s e)"] show ?thesis by (simp add: split_beta)
  next
    case sent
    with run_answered [OF sent(1) rest] show ?thesis by (simp add: split_beta)
  qed
qed

lemma completeQuiz_constants:
  "r \<in> set (completeQuiz sid fs) \<Longrightarrow> \<exists>x. r = PostComplete x fs 1 10"
  by (auto simp add: completeQuiz_def split: option.splits if_splits)

lemma handle_complete:
  "PostComplete x fs ca tq \<in> set (snd (handle s e)) \<Longrightarrow> ca = 1 \<and> tq = 10"
proof (cases e)
  case (ClickOption i)
  assume "PostComplete x fs ca tq \<in> set (snd (handle s e))"
  with ClickOption show ?thesis using handleAnswerSelect_cases [of s i] by (auto split: if_splits)
next
  case (AnswerSettled sid res)
  assume "PostComplete x fs ca tq \<in> set (snd (handle s e))"
  with AnswerSettled show ?thesis
    by (auto simp add: handleAnswerSelect_settled_def Let_def split: option.splits if_splits
        dest: completeQuiz_constants)
next
  case (TimeoutSettled sid res)
  assume "PostComplete x fs ca tq \<in> set (snd (handle s e))"
  with TimeoutSettled show ?thesis
    by (auto simp add: handleTimeout_settled_def Let_def split: option.splits if_splits
        dest: completeQuiz_constants)
qed (auto simp add: start_def start_request_def split: if_splits)

lemma step_complete:
  assumes "PostComplete x fs ca tq \<in> set (snd (step s e))"
  shows "ca = 1 \<and> tq = 10"
proof -
  obtain s1 r1 where h: "handle s e = (s1, r1)" by (cases "handle s e")
  have st: "snd (step s e) = r1 @ snd (countdown_effect s1)"
    by (simp add: step_def h split: prod.splits)
  from assms st have "PostComplete x fs ca tq \<in> set r1 \<or> PostComplete x fs ca tq \<in> set (snd (countdown_effect s1))"
    by simp
  moreover have "PostComplete x fs ca tq \<notin> set (snd (countdown_effect s1))"
    using countdown_effect_cases [of s1] by auto
  ultimately have "PostComplete x fs ca tq \<in> set (snd (handle s e))" using h by simp
  then show ?thesis by (rule handle_complete)
qed

lemma run_complete:
  "PostComplete x fs ca tq \<in> set (snd (run s es)) \<Longrightarrow> ca = 1 \<and> tq = 10"
proof (induction es arbitrary: s)
  case Nil
  then show ?case by simp
next
  case (Cons e es)
  then show ?case by (auto simp add: split_beta dest: step_complete)
qed

subsection \<open>Claims about the client\<close>

text \<open>
  Claim C4. The countdown starts at 30 and is set to 30 again whenever a question is
  put on screen, by a settled start and by "Next Question". Take a state that shows
  a question \<open>q\<close> of a session with a non-empty id, not yet answered, with \<open>n > 0\<close>
  seconds left. If the one-second timer fires \<open>n\<close> times with nothing else happening,
  the client has issued exactly one request, a POST to the answer endpoint for the
  id of \<open>q\<close> with \<open>answer_index = -1\<close> and \<open>time_left = 0\<close>, and the countdown stands at 0.
  The unit of the countdown is the firing of the timer that the effect arms for 1000
  milliseconds.
\<close>

theorem countdown_submits_timeout:
  assumes "question s = Some q" and "sessionId s = Some sid" and "sid \<noteq> []"
    and "\<not> isAnswered s" and "\<not> quizComplete s"
    and "timeLeft s = int n" and "0 < n"
  shows "timeLeft initial = 30
    \<and> timeLeft (start_settled (Some data) s0) = 30
    \<and> (win_nextQuestion s0 = Some nq \<longrightarrow>
         question (nextQuestion s0) = Some nq \<and> timeLeft (nextQuestion s0) = 30)
    \<and> run s (replicate n Tick) =
         (s\<lparr>timeLeft := 0, isAnswered := True, selectedAnswer := None, isTimeout := True\<rparr>,
          [PostAnswer sid (qp_id q) (- 1) 0])"
proof -
  have a: "timeLeft initial = 30" by (simp add: initial_def)
  have b: "timeLeft (start_settled (Some data) s0) = 30" by (simp add: start_settled_def)
  have c: "win_nextQuestion s0 = Some nq \<longrightarrow>
         question (nextQuestion s0) = Some nq \<and> timeLeft (nextQuestion s0) = 30"
    by (simp add: nextQuestion_def)
  from assms have d: "run s (replicate n Tick) =
         (s\<lparr>timeLeft := 0, isAnswered := True, selectedAnswer := None, isTimeout := True\<rparr>,
          [PostAnswer sid (qp_id q) (- 1) 0])"
    by (simp add: run_ticks)
  from a b c d show ?thesis by blast
qed

theorem countdown_submits_timeout_witness:
  "question playing = Some sample_question \<and> sessionId playing = Some ''s1'' \<and> ''s1'' \<noteq> []
   \<and> \<not> isAnswered playing \<and> \<not> quizComplete playing \<and> timeLeft playing = int 30 \<and> (0::nat) < 30
   \<and> win_nextQuestion (fst (handleAnswerSelect_settled (Some ''s1'') (Some sample_reply) playing))
        = Some sample_second
   \<and> timeLeft (nextQuestion (fst (handleAnswerSelect_settled (Some ''s1'') (Some sample_reply) playing))) = 30
   \<and> run playing (replicate 30 Tick) =
       (playing\<lparr>timeLeft := 0, isAnswered := True, selectedAnswer := None, isTimeout := True\<rparr>,
        [PostAnswer ''s1'' ''q1'' (- 1) 0])"
proof -
  have h: "question playing = Some sample_question" "sessionId playing = Some ''s1''" "''s1'' \<noteq> []"
    "\<not> isAnswered playing" "\<not> quizComplete playing" "timeLeft playing = int 30" "(0::nat) < 30"
    by (simp_all add: playing_def start_settled_def sample_start_def initial_def)
  have w: "win_nextQuestion (fst (handleAnswerSelect_settled (Some ''s1'') (Some sample_reply) playing))
        = Some sample_second"
    by (simp add: handleAnswerSelect_settled_def sample_reply_def Let_def)
  from countdown_submits_timeout [OF h, of sample_start
       "fst (handleAnswerSelect_settled (Some ''s1'') (Some sample_reply) playing)" sample_second]
    h w
  show ?thesis by (simp add: sample_question_def)
qed

text \<open>
  Once \<open>isAnswered\<close> is set, \<open>handleAnswerSelect\<close> and \<open>handleTimeout\<close> return without
  a request and without changing the state; either handler sets \<open>isAnswered\<close> when
  it issues a request; and \<open>nextQuestion\<close>, when it shows a question, clears the flag.
  So over a sequence of events with no "Next Question" click and no settled start,
  the client sends at most one answer submission, and none if \<open>isAnswered\<close> was set.
\<close>

lemma answered_flag_guards:
  assumes "\<forall>e\<in>set es. \<not> resets e"
  shows "(isAnswered s \<longrightarrow> handleAnswerSelect s i = (s, []) \<and> handleTimeout s = (s, []))
    \<and> (snd (handleAnswerSelect s i) \<noteq> [] \<longrightarrow> isAnswered (fst (handleAnswerSelect s i)))
    \<and> (snd (handleTimeout s) \<noteq> [] \<longrightarrow> isAnswered (fst (handleTimeout s)))
    \<and> length (filter is_answer (snd (run s es))) \<le> 1
    \<and> (isAnswered s \<longrightarrow> filter is_answer (snd (run s es)) = [])
    \<and> (win_nextQuestion s = Some nq \<longrightarrow> \<not> isAnswered (nextQuestion s))"
proof -
  have a: "isAnswered s \<longrightarrow> handleAnswerSelect s i = (s, []) \<and> handleTimeout s = (s, [])"
    by (simp add: handleAnswerSelect_answered handleTimeout_answered)
  have b: "snd (handleAnswerSelect s i) \<noteq> [] \<longrightarrow> isAnswered (fst (handleAnswerSelect s i))"
    using handleAnswerSelect_cases [of s i] by auto
  have c: "snd (handleTimeout s) \<noteq> [] \<longrightarrow> isAnswered (fst (handleTimeout s))"
    using handleTimeout_cases [of s] by auto
  have d: "length (filter is_answer (snd (run s es))) \<le> 1"
    using assms by (rule run_at_most_one)
  have e: "isAnswered s \<longrightarrow> filter is_answer (snd (run s es)) = []"
    using assms run_answered [of s es] by simp
  have f: "win_nextQuestion s = Some nq \<longrightarrow> \<not> isAnswered (nextQuestion s)"
    by (simp add: nextQuestion_def)
  from a b c d e f show ?thesis by blast
qed

lemma run_append:
  "run s (es @ fs) = (fst (run (fst (run s es)) fs), snd (run s es) @ snd (run (fst (run s es)) fs))"
  by (induction es arbitrary: s) (simp_all add: split_beta)

lemma second_question_pending:
  "run initial [Mount None, StartSettled (Some sample_start), ClickOption 0,
                AnswerSettled (Some ''s1'') (Some sample_reply), ClickNext, ClickOption 1]
     = (\<lparr> sessionId = Some ''s1'', question = Some sample_second, selectedAnswer = Some 1,
          score = 25, timeLeft = 30, isAnswered = True, quizComplete = False,
          difficultyLevel = 2, loading = False, isTimeout = False,
          win_nextQuestion = Some sample_second, win_lastCorrectIndex = Some 0 \<rparr>,
        [PostStart 10 None, PostAnswer ''s1'' ''q1'' 0 30, PostAnswer ''s1'' ''q2'' 1 30])"
  by (simp add: initial_def start_def start_request_def start_settled_def sample_start_def
      sample_question_def sample_second_def sample_reply_def step_def timer_armed_def
      countdown_effect_def handleTimeout_def handleAnswerSelect_def handleAnswerSelect_settled_def
      option_clickable_def question_shown_def next_button_shown_def nextQuestion_def Let_def)

lemma second_question_shown_again:
  "run \<lparr> sessionId = Some ''s1'', question = Some sample_second, selectedAnswer = Some 1,
          score = 25, timeLeft = 30, isAnswered = True, quizComplete = False,
          difficultyLevel = 2, loading = False, isTimeout = False,
          win_nextQuestion = Some sample_second, win_lastCorrectIndex = Some 0 \<rparr> [ClickNext]
     = (\<lparr> sessionId = Some ''s1'', question = Some sample_second, selectedAnswer = None,
          score = 25, timeLeft = 30, isAnswered = False, quizComplete = False,
          difficultyLevel = 2, loading = False, isTimeout = False,
          win_nextQuestion = Some sample_second, win_lastCorrectIndex = Some 0 \<rparr>, [])"
  by (simp add: step_def timer_armed_def countdown_effect_def question_shown_def
      next_button_shown_def nextQuestion_def Let_def)

text \<open>
  Claim C5: for every displayed question the client sends at most one answer
  submission, a chosen option or the timeout sentinel and never both. The guard on
  \<open>isAnswered\<close> is there, as the lemma above shows, but \<open>window.__nextQuestion\<close> is
  never cleared, and the page does send two. The run below starts a quiz, answers the
  first question, receives the reply that carries the second question \<open>q2\<close>, clicks
  "Next Question" and answers \<open>q2\<close> with option 1. Before the reply to that answer
  arrives, the "Next Question" button is on screen, because the global still holds
  \<open>q2\<close>; a click on it shows \<open>q2\<close> again with \<open>isAnswered\<close> cleared and 30 seconds.
  A click on option 0 then sends a second answer for \<open>q2\<close>; and if instead the
  timer fires 30 times, the timeout sentinel for \<open>q2\<close> follows the chosen option.
\<close>

theorem second_answer_for_shown_question:
  "snd (run initial [Mount None, StartSettled (Some sample_start), ClickOption 0,
                     AnswerSettled (Some ''s1'') (Some sample_reply), ClickNext,
                     ClickOption 1, ClickNext, ClickOption 0])
     = [PostStart 10 None, PostAnswer ''s1'' ''q1'' 0 30,
        PostAnswer ''s1'' ''q2'' 1 30, PostAnswer ''s1'' ''q2'' 0 30]
   \<and> snd (run initial ([Mount None, StartSettled (Some sample_start), ClickOption 0,
                     AnswerSettled (Some ''s1'') (Some sample_reply), ClickNext,
                     ClickOption 1, ClickNext] @ replicate 30 Tick))
     = [PostStart 10 None, PostAnswer ''s1'' ''q1'' 0 30,
        PostAnswer ''s1'' ''q2'' 1 30, PostAnswer ''s1'' ''q2'' (- 1) 0]"
proof -
  let ?pending = "\<lparr> sessionId = Some ''s1'', question = Some sample_second, selectedAnswer = Some 1,
          score = 25, timeLeft = 30, isAnswered = True, quizComplete = False,
          difficultyLevel = 2, loading = False, isTimeout = False,
          win_nextQuestion = Some sample_second, win_lastCorrectIndex = Some 0 \<rparr>"
  let ?again = "\<lparr> sessionId = Some ''s1'', question = Some sample_second, selectedAnswer = None,
          score = 25, timeLeft = 30, isAnswered = False, quizComplete = False,
          difficultyLevel = 2, loading = False, isTimeout = False,
          win_nextQuestion = Some sample_second, win_lastCorrectIndex = Some 0 \<rparr>"
  have prefix: "run initial [Mount None, StartSettled (Some sample_start), ClickOption 0,
                     AnswerSettled (Some ''s1'') (Some sample_reply), ClickNext,
                     ClickOption 1, ClickNext]
      = (?again, [PostStart 10 None, PostAnswer ''s1'' ''q1'' 0 30, PostAnswer ''s1'' ''q2'' 1 30])"
    using run_append [of initial "[Mount None, StartSettled (Some sample_start), ClickOption 0,
                     AnswerSettled (Some ''s1'') (Some sample_reply), ClickNext, ClickOption 1]" "[ClickNext]"]
    by (simp only: second_question_pending second_question_shown_again append.simps fst_conv snd_conv)
  have click: "snd (run ?again [ClickOption 0]) = [PostAnswer ''s1'' ''q2'' 0 30]"
    by (simp add: step_def countdown_effect_def handleAnswerSelect_def option_clickable_def
        question_shown_def sample_second_def)
  have ticks: "snd (run ?again (replicate 30 Tick)) = [PostAnswer ''s1'' ''q2'' (- 1) 0]"
    using run_ticks [of ?again 30 sample_second "''s1''"] by (simp add: sample_second_def)
  have a: "snd (run initial ([Mount None, StartSettled (Some sample_start), ClickOption 0,
                     AnswerSettled (Some ''s1'') (Some sample_reply), ClickNext,
                     ClickOption 1, ClickNext] @ [ClickOption 0]))
     = [PostStart 10 None, PostAnswer ''s1'' ''q1'' 0 30,
        PostAnswer ''s1'' ''q2'' 1 30, PostAnswer ''s1'' ''q2'' 0 30]"
    unfolding run_append prefix fst_conv snd_conv click by simp
  have b: "snd (run initial ([Mount None, StartSettled (Some sample_start), ClickOption 0,
                     AnswerSettled (Some ''s1'') (Some sample_reply), ClickNext,
                     ClickOption 1, ClickNext] @ replicate 30 Tick))
     = [PostStart 10 None, PostAnswer ''s1'' ''q1'' 0 30,
        PostAnswer ''s1'' ''q2'' 1 30, PostAnswer ''s1'' ''q2'' (- 1) 0]"
    unfolding run_append prefix fst_conv snd_conv ticks by simp
  from a b show ?thesis by (simp only: append.simps)
qed

text \<open>
  Claim C6 says that the next question and the revealed correct index of an answer
  response are never kept in client-held mutable globals. They are: before the
  response \<open>window.__nextQuestion\<close> and \<open>window.__lastCorrectIndex\<close> are unset, after it
  they hold the response's \<open>next_question\<close> and \<open>correct_index\<close>, and they still hold
  them after \<open>nextQuestion\<close> has put the next question on screen.
\<close>

theorem response_data_kept_counterexample:
  "win_nextQuestion playing = None \<and> win_lastCorrectIndex playing = None
   \<and> win_nextQuestion (fst (handleAnswerSelect_settled (Some ''s1'') (Some sample_reply) playing))
        = Some sample_second
   \<and> win_lastCorrectIndex (fst (handleAnswerSelect_settled (Some ''s1'') (Some sample_reply) playing))
        = Some 0
   \<and> win_nextQuestion (nextQuestion (fst (handleAnswerSelect_settled (Some ''s1'') (Some sample_reply) playing)))
        = Some sample_second
   \<and> win_lastCorrectIndex (nextQuestion (fst (handleAnswerSelect_settled (Some ''s1'') (Some sample_reply) playing)))
        = Some 0"
  by (simp add: playing_def start_settled_def initial_def handleAnswerSelect_settled_def
      sample_reply_def nextQuestion_def Let_def)

text \<open>
  Claim C6, as amended. Both answer handlers store the response in globals of the
  \<open>window\<close> object: every parsed answer response writes its \<open>correct_index\<close> to
  \<open>__lastCorrectIndex\<close>, and a response that is not \<open>quiz_complete\<close> and carries a
  \<open>next_question\<close> writes it to \<open>__nextQuestion\<close>. The values outlive the question they
  came with: \<open>nextQuestion\<close> reads \<open>__nextQuestion\<close> to show the next question and
  leaves both globals as they are.
\<close>

theorem response_data_stored_in_globals:
  "win_lastCorrectIndex (fst (handleAnswerSelect_settled sid (Some data) s)) = Some (ar_correct_index data)
   \<and> win_lastCorrectIndex (fst (handleTimeout_settled sid (Some data) s)) = Some (ar_correct_index data)
   \<and> (\<not> ar_quiz_complete data \<and> ar_next_question data = Some nq \<longrightarrow>
        win_nextQuestion (fst (handleAnswerSelect_settled sid (Some data) s)) = Some nq
        \<and> win_nextQuestion (fst (handleTimeout_settled sid (Some data) s)) = Some nq)
   \<and> win_nextQuestion (nextQuestion s) = win_nextQuestion s
   \<and> win_lastCorrectIndex (nextQuestion s) = win_lastCorrectIndex s
   \<and> (win_nextQuestion s = Some nq \<longrightarrow> question (nextQuestion s) = Some nq)"
  by (simp add: handleAnswerSelect_settled_def handleTimeout_settled_def nextQuestion_def Let_def
      split: option.splits prod.splits)

theorem response_data_stored_in_globals_witness:
  "\<not> ar_quiz_complete sample_reply \<and> ar_next_question sample_reply = Some sample_second
   \<and> win_nextQuestion (fst (handleTimeout_settled (Some ''s1'') (Some sample_reply) playing)) = Some sample_second
   \<and> question (nextQuestion (fst (handleTimeout_settled (Some ''s1'') (Some sample_reply) playing)))
        = Some sample_second"
proof -
  have h: "\<not> ar_quiz_complete sample_reply \<and> ar_next_question sample_reply = Some sample_second"
    by (simp add: sample_reply_def)
  from response_data_stored_in_globals [of "Some ''s1''" sample_reply playing sample_second] h
  have a: "win_nextQuestion (fst (handleTimeout_settled (Some ''s1'') (Some sample_reply) playing)) = Some sample_second"
    by blast
  from response_data_stored_in_globals
    [of "Some ''s1''" sample_reply "fst (handleTimeout_settled (Some ''s1'') (Some sample_reply) playing)" sample_second] a
  have "question (nextQuestion (fst (handleTimeout_settled (Some ''s1'') (Some sample_reply) playing)))
        = Some sample_second" by blast
  with h a show ?thesis by blast
qed

text \<open>
  Claim C7. Let either answer handler have sent its answer request for session
  \<open>sid\<close>. If the response carries \<open>quiz_complete = true\<close>, then whatever the state at
  that moment, the handler issues exactly one request: a POST to the completion
  endpoint for \<open>sid\<close> whose \<open>final_score\<close> is the \<open>score\<close> of that response.
\<close>

theorem complete_posted_once:
  assumes "ar_quiz_complete data"
  shows "(handleAnswerSelect s i = (s', [PostAnswer sid qid a t]) \<longrightarrow>
           snd (handleAnswerSelect_settled (sessionId s) (Some data) s'')
             = [PostComplete sid (ar_score data) 1 10])
       \<and> (handleTimeout s = (s', [PostAnswer sid qid a t]) \<longrightarrow>
           snd (handleTimeout_settled (sessionId s) (Some data) s'')
             = [PostComplete sid (ar_score data) 1 10])"
  using assms
  by (auto simp add: handleAnswerSelect_def handleTimeout_def handleAnswerSelect_settled_def
      handleTimeout_settled_def completeQuiz_def Let_def split: option.splits if_splits)

theorem complete_posted_once_witness:
  "ar_quiz_complete sample_last_reply
   \<and> handleAnswerSelect playing 3 =
       (playing\<lparr>selectedAnswer := Some 3, isAnswered := True\<rparr>, [PostAnswer ''s1'' ''q1'' 3 30])
   \<and> snd (handleAnswerSelect_settled (sessionId playing) (Some sample_last_reply)
            (playing\<lparr>selectedAnswer := Some 3, isAnswered := True\<rparr>))
       = [PostComplete ''s1'' 140 1 10]"
proof -
  have h: "ar_quiz_complete sample_last_reply" by (simp add: sample_last_reply_def)
  have b: "handleAnswerSelect playing 3 =
       (playing\<lparr>selectedAnswer := Some 3, isAnswered := True\<rparr>, [PostAnswer ''s1'' ''q1'' 3 30])"
    by (simp add: handleAnswerSelect_def playing_def start_settled_def initial_def sample_start_def
        sample_question_def)
  from complete_posted_once [OF h, of playing 3 "playing\<lparr>selectedAnswer := Some 3, isAnswered := True\<rparr>"
      "''s1''" "''q1''" 3 30 "playing\<lparr>selectedAnswer := Some 3, isAnswered := True\<rparr>"] b
  have "snd (handleAnswerSelect_settled (sessionId playing) (Some sample_last_reply)
            (playing\<lparr>selectedAnswer := Some 3, isAnswered := True\<rparr>))
       = [PostComplete ''s1'' (ar_score sample_last_reply) 1 10]" by blast
  with h b show ?thesis by (simp add: sample_last_reply_def)
qed

text \<open>
  Claim C8. \<open>start\<close> posts to the start endpoint with \<open>total_questions = 10\<close>; the body
  has a \<open>user_id\<close> exactly when user data with a non-empty \<open>user_id\<close> is present (the
  source tests the truthiness of \<open>userData?.user_id\<close>). When the response arrives the
  view holds the returned session id, first question and score, 30 seconds on the
  countdown, no selected answer, and neither \<open>isAnswered\<close> nor \<open>isTimeout\<close>. The last
  conjunct is the whole start from the initial state.
\<close>

theorem quiz_start_request_and_view:
  "snd (start None s) = [PostStart 10 None]
   \<and> snd (start (Some u) s) = [PostStart 10 (if user_id u = [] then None else Some (user_id u))]
   \<and> start_settled (Some data) (fst (start userData s)) =
        s\<lparr> sessionId := Some (sr_session_id data), question := Some (sr_question data),
           score := sr_score data, timeLeft := 30, isAnswered := False, isTimeout := False,
           selectedAnswer := None, loading := False \<rparr>
   \<and> run initial [Mount userData, StartSettled (Some data)] =
        (\<lparr> sessionId = Some (sr_session_id data), question = Some (sr_question data),
            selectedAnswer = None, score = sr_score data, timeLeft = 30, isAnswered = False,
            quizComplete = False, difficultyLevel = 1, loading = False, isTimeout = False,
            win_nextQuestion = None, win_lastCorrectIndex = None \<rparr>,
         [start_request userData])"
  by (simp add: start_def start_request_def start_settled_def initial_def step_def
      countdown_effect_def)

text \<open>
  Claim C9. Whatever the state and the events, every POST to the completion endpoint
  that the client issues carries \<open>correct_answers = 1\<close> and \<open>total_questions = 10\<close>.
\<close>

theorem complete_body_constants:
  "PostComplete x fs ca tq \<in> set (snd (run s es)) \<Longrightarrow> ca = 1 \<and> tq = 10"
  by (rule run_complete)

theorem complete_body_constants_witness:
  "PostComplete ''s1'' 140 1 10 \<in>
     set (snd (run playing [ClickOption 3, AnswerSettled (Some ''s1'') (Some sample_last_reply)]))
   \<and> (1::int) = 1 \<and> (10::int) = 10"
proof -
  have h: "PostComplete ''s1'' 140 1 10 \<in>
     set (snd (run playing [ClickOption 3, AnswerSettled (Some ''s1'') (Some sample_last_reply)]))"
    by (simp add: playing_def start_settled_def sample_start_def initial_def sample_question_def
     step_def timer_armed_def countdown_effect_def handleTimeout_def handleAnswerSelect_def
     handleAnswerSelect_settled_def option_clickable_def question_shown_def sample_last_reply_def
     completeQuiz_def Let_def)
  from complete_body_constants [OF h] h show ?thesis by blast
qed

lemma countdown_effect_level: "difficultyLevel (fst (countdown_effect s)) = difficultyLevel s"
  using countdown_effect_cases [of s] by auto

lemma step_level: "difficultyLevel (fst (step s e)) = difficultyLevel (fst (handle s e))"
  by (simp add: step_def split_beta countdown_effect_level)

text \<open>
  Claim C10. The displayed difficulty level starts at 1. A settled answer or timeout
  request sets it to the response's \<open>difficulty_level\<close> when that field is present and
  not 0, and leaves it as it is when the field is 0 or absent or the request failed.
  No other event changes it.
\<close>

theorem difficulty_level_display:
  "difficultyLevel initial = 1
   \<and> difficultyLevel (fst (step s (AnswerSettled sid (Some data)))) =
       (case ar_difficulty_level data of
          None \<Rightarrow> difficultyLevel s
        | Some d \<Rightarrow> if d = 0 then difficultyLevel s else d)
   \<and> difficultyLevel (fst (step s (TimeoutSettled sid (Some data)))) =
       (case ar_difficulty_level data of
          None \<Rightarrow> difficultyLevel s
        | Some d \<Rightarrow> if d = 0 then difficultyLevel s else d)
   \<and> difficultyLevel (fst (step s (AnswerSettled sid None))) = difficultyLevel s
   \<and> difficultyLevel (fst (step s (TimeoutSettled sid None))) = difficultyLevel s
   \<and> difficultyLevel (fst (step s (Mount userData))) = difficultyLevel s
   \<and> difficultyLevel (fst (step s (StartSettled res))) = difficultyLevel s
   \<and> difficultyLevel (fst (step s Tick)) = difficultyLevel s
   \<and> difficultyLevel (fst (step s (ClickOption i))) = difficultyLevel s
   \<and> difficultyLevel (fst (step s ClickNext)) = difficultyLevel s"
proof -
  have a: "difficultyLevel initial = 1" by (simp add: initial_def)
  have b: "difficultyLevel (fst (step s (AnswerSettled sid (Some data)))) =
       (case ar_difficulty_level data of
          None \<Rightarrow> difficultyLevel s
        | Some d \<Rightarrow> if d = 0 then difficultyLevel s else d)"
    by (simp add: step_level handleAnswerSelect_settled_def Let_def split: option.splits prod.splits)
  have c: "difficultyLevel (fst (step s (TimeoutSettled sid (Some data)))) =
       (case ar_difficulty_level data of
          None \<Rightarrow> difficultyLevel s
        | Some d \<Rightarrow> if d = 0 then difficultyLevel s else d)"
    by (simp add: step_level handleTimeout_settled_def Let_def split: option.splits prod.splits)
  have d: "difficultyLevel (fst (step s (AnswerSettled sid None))) = difficultyLevel s"
    "difficultyLevel (fst (step s (TimeoutSettled sid None))) = difficultyLevel s"
    by (simp_all add: step_level handleAnswerSelect_settled_def handleTimeout_settled_def)
  have e: "difficultyLevel (fst (step s (Mount userData))) = difficultyLevel s"
    "difficultyLevel (fst (step s (StartSettled res))) = difficultyLevel s"
    "difficultyLevel (fst (step s Tick)) = difficultyLevel s"
    by (simp_all add: step_level start_def start_settled_def split: option.splits)
  have f: "difficultyLevel (fst (step s (ClickOption i))) = difficultyLevel s"
    using handleAnswerSelect_cases [of s i] by (auto simp add: step_level)
  have g: "difficultyLevel (fst (step s ClickNext)) = difficultyLevel s"
    by (simp add: step_level nextQuestion_def split: option.splits)
  from a b c d e f g show ?thesis by blast
qed

section \<open>Properties of the session engine\<close>

lemma adapt_frame:
  "qs_score (adapt_difficulty cfg c s) = qs_score s"
  "qs_questions (adapt_difficulty cfg c s) = qs_questions s"
  "qs_current_index (adapt_difficulty cfg c s) = qs_current_index s"
  "qs_status (adapt_difficulty cfg c s) = qs_status s"
  by (simp_all add: adapt_difficulty_def)

lemma clamp_level_pos: "0 < level_min cfg \<Longrightarrow> 0 < clamp_level cfg l"
  by (simp add: clamp_level_def max_def)

lemma adapt_level_pos:
  "0 < level_min cfg \<Longrightarrow> 0 < qs_difficulty_level (adapt_difficulty cfg c s) \<or>
     qs_difficulty_level (adapt_difficulty cfg c s) = qs_difficulty_level s"
  by (simp add: adapt_difficulty_def clamp_level_pos)

lemma grade_and_advance_facts:
  assumes "grade_and_advance cfg s q a t = (r, s')"
  shows "res_correct r = grade q a"
    and "res_correct_index r = q_correct_index q"
    and "res_score r = qs_score s'"
    and "qs_score s' = qs_score s + (if grade q a then points cfg (qs_difficulty_level s) t else 0)"
    and "qs_questions s' = qs_questions s"
    and "qs_current_index s' = Suc (qs_current_index s)"
    and "qs_status s' = (if length (qs_questions s) \<le> Suc (qs_current_index s) then COMPLETE else qs_status s)"
    and "res_quiz_complete r = (length (qs_questions s) \<le> Suc (qs_current_index s))"
  using assms by (auto simp add: grade_and_advance_def Let_def adapt_frame)

lemma grade_and_advance_level:
  assumes "grade_and_advance cfg s q a t = (r, s')" and "0 < level_min cfg" and "0 < qs_difficulty_level s"
  shows "0 < qs_difficulty_level s'"
proof -
  let ?s1 = "s\<lparr> qs_score := qs_score s + (if grade q a then points cfg (qs_difficulty_level s) t else 0),
                  qs_log := qs_log s @ [\<lparr> le_answer_index = a, le_correct = grade q a,
                                           le_time_left = t \<rparr>] \<rparr>"
  from assms(1) have "qs_difficulty_level s' = qs_difficulty_level (adapt_difficulty cfg (grade q a) ?s1)"
    by (auto simp add: grade_and_advance_def Let_def)
  with adapt_level_pos [OF assms(2), of "grade q a" ?s1] assms(3) show ?thesis by auto
qed

lemma submitAnswer_cases:
  assumes "store sid = Some s"
  shows "(\<exists>e. submitAnswer cfg store sid qid a t = (Inl e, store)) \<or>
         (\<exists>q. qs_status s = ACTIVE \<and> current_question s = Some q \<and> q_id q = qid \<and>
            submitAnswer cfg store sid qid a t =
              (Inr (fst (grade_and_advance cfg s q a t)),
               store(sid \<mapsto> snd (grade_and_advance cfg s q a t))))"
  using assms
  by (cases "qs_status s") (auto simp add: submitAnswer_def split_beta split: option.splits)

lemma submitAnswer_complete:
  "store sid = Some s \<Longrightarrow> qs_status s = COMPLETE \<Longrightarrow>
   submitAnswer cfg store sid qid a t = (Inl SessionNotFound, store)"
  by (simp add: submitAnswer_def)

lemma submitAnswer_unknown:
  "store sid = None \<Longrightarrow> submitAnswer cfg store sid qid a t = (Inl SessionNotFound, store)"
  by (simp add: submitAnswer_def)

lemma submitAnswer_score:
  assumes "submitAnswer cfg store sid qid a t = (r, store')" and "store sid = Some s"
  obtains s' where "store' sid = Some s'" and "qs_score s \<le> qs_score s'"
    and "\<And>x. r = Inr x \<Longrightarrow> res_score x = qs_score s'"
proof -
  from submitAnswer_cases [of store sid s cfg qid a t] assms
  consider (fail) "store' = store"  "isl r"
    | (ok) q where "r = Inr (fst (grade_and_advance cfg s q a t))"
        "store' = store(sid \<mapsto> snd (grade_and_advance cfg s q a t))"
    by auto
  then show thesis
  proof cases
    case fail
    with assms(2) that [of s] show thesis by (cases r) auto
  next
    case ok
    obtain x s' where g: "grade_and_advance cfg s q a t = (x, s')"
      by (cases "grade_and_advance cfg s q a t")
    from grade_and_advance_facts(3,4) [OF g] ok g that [of s'] show thesis by simp
  qed
qed

lemma submitAnswer_progress:
  assumes "submitAnswer cfg store sid qid a t = (r, store')"
    and "store sid = Some s" and "well_formed s"
  obtains s' where "store' sid = Some s'" and "well_formed s'"
    and "remaining s' + (if isl r then 0 else 1) = remaining s"
    and "0 < level_min cfg \<Longrightarrow> 0 < qs_difficulty_level s \<Longrightarrow> 0 < qs_difficulty_level s'"
proof -
  from submitAnswer_cases [of store sid s cfg qid a t] assms(1,2)
  consider (fail) "store' = store"  "isl r"
    | (ok) q where "qs_status s = ACTIVE" "r = Inr (fst (grade_and_advance cfg s q a t))"
        "store' = store(sid \<mapsto> snd (grade_and_advance cfg s q a t))"
    by auto
  then show thesis
  proof cases
    case fail
    with assms(2,3) that [of s] show thesis by simp
  next
    case ok
    obtain x s' where g: "grade_and_advance cfg s q a t = (x, s')"
      by (cases "grade_and_advance cfg s q a t")
    note f = grade_and_advance_facts [OF g]
    from ok(1) assms(3) have lt: "qs_current_index s < length (qs_questions s)"
      by (simp add: well_formed_def)
    have 1: "store' sid = Some s'" using ok g by simp
    have 2: "well_formed s'" using f(5,6,7) ok(1) by (simp add: well_formed_def)
    have 3: "remaining s' + (if isl r then 0 else 1) = remaining s"
      using f(5,6,7) ok(1,2) lt by (auto simp add: remaining_def)
    have 4: "0 < level_min cfg \<Longrightarrow> 0 < qs_difficulty_level s \<Longrightarrow> 0 < qs_difficulty_level s'"
      using grade_and_advance_level [OF g] by simp
    from that [OF 1 2 3 4] show thesis by simp
  qed
qed

lemma submit_all_scores:
  "submit_all cfg store sid calls = (rs, store') \<Longrightarrow> store sid = Some s \<Longrightarrow>
   sorted (qs_score s # returned_scores rs)"
proof (induction calls arbitrary: store s rs)
  case Nil
  then show ?case by simp
next
  case (Cons c calls)
  obtain qid a t where c: "c = (qid, a, t)" by (cases c)
  obtain r store1 where st: "submitAnswer cfg store sid qid a t = (r, store1)"
    by (cases "submitAnswer cfg store sid qid a t")
  obtain rs1 where rest: "submit_all cfg store1 sid calls = (rs1, store')" and rs: "rs = r # rs1"
    using Cons.prems(1) c st by (auto split: prod.splits)
  from submitAnswer_score [OF st Cons.prems(2)]
  obtain s1 where s1: "store1 sid = Some s1" "qs_score s \<le> qs_score s1"
    "\<And>x. r = Inr x \<Longrightarrow> res_score x = qs_score s1" by blast
  from Cons.IH [OF rest s1(1)] have ih: "sorted (qs_score s1 # returned_scores rs1)" .
  show ?case
  proof (cases r)
    case (Inl e)
    with ih s1(2) rs show ?thesis by auto
  next
    case (Inr x)
    with ih s1(2,3) rs show ?thesis by auto
  qed
qed

lemma submit_all_progress:
  "submit_all cfg store sid calls = (rs, store') \<Longrightarrow> store sid = Some s \<Longrightarrow> well_formed s \<Longrightarrow>
   \<exists>s'. store' sid = Some s' \<and> well_formed s' \<and> remaining s' + successes rs = remaining s \<and>
        (0 < level_min cfg \<longrightarrow> 0 < qs_difficulty_level s \<longrightarrow> 0 < qs_difficulty_level s')"
proof (induction calls arbitrary: store s rs)
  case Nil
  then show ?case by (simp add: successes_def)
next
  case (Cons c calls)
  obtain qid a t where c: "c = (qid, a, t)" by (cases c)
  obtain r store1 where st: "submitAnswer cfg store sid qid a t = (r, store1)"
    by (cases "submitAnswer cfg store sid qid a t")
  obtain rs1 where rest: "submit_all cfg store1 sid calls = (rs1, store')" and rs: "rs = r # rs1"
    using Cons.prems(1) c st by (auto split: prod.splits)
  from submitAnswer_progress [OF st Cons.prems(2,3)]
  obtain s1 where s1: "store1 sid = Some s1" "well_formed s1"
    "remaining s1 + (if isl r then 0 else 1) = remaining s"
    "0 < level_min cfg \<Longrightarrow> 0 < qs_difficulty_level s \<Longrightarrow> 0 < qs_difficulty_level s1" by blast
  from Cons.IH [OF rest s1(1,2)]
  obtain s' where s': "store' sid = Some s'" "well_formed s'" "remaining s' + successes rs1 = remaining s1"
    "0 < level_min cfg \<longrightarrow> 0 < qs_difficulty_level s1 \<longrightarrow> 0 < qs_difficulty_level s'" by auto
  have "remaining s' + successes rs = remaining s"
    using s'(3) s1(3) rs by (cases "isl r") (simp_all add: successes_def)
  with s'(1,2,4) s1(4) show ?case by (intro exI [of _ s']) auto
qed

lemma engine_start_session:
  assumes "engine_start store0 sid uid n source = (Inr r0, store)"
  obtains s where "store sid = Some s" and "well_formed s" and "remaining s = nat n"
    and "qs_difficulty_level s = 1" and "qs_score s = 0" and "0 < n"
  using assms
  by (auto simp add: engine_start_def Let_def well_formed_def remaining_def
      split: if_splits option.splits)

lemma remaining_zero: "well_formed s \<Longrightarrow> (remaining s = 0) = (qs_status s = COMPLETE)"
  by (cases "qs_status s") (auto simp add: well_formed_def remaining_def)

text \<open>
  Claim C1. For a session in the store, the score that a successful \<open>submitAnswer\<close>
  returns is at least the session's score before the call and is the score stored
  after it, and a failed call leaves the store as it was. Hence over any sequence of
  calls on the session, the session's score followed by the returned scores is a
  non-decreasing list.
\<close>

theorem score_non_decreasing:
  assumes "store sid = Some s"
  shows "(submitAnswer cfg store sid qid a t = (Inr r, store1) \<longrightarrow>
            qs_score s \<le> res_score r \<and> (\<exists>s1. store1 sid = Some s1 \<and> qs_score s1 = res_score r))
       \<and> (submitAnswer cfg store sid qid a t = (Inl e, store1) \<longrightarrow> store1 = store)
       \<and> sorted (qs_score s # returned_scores (fst (submit_all cfg store sid calls)))"
proof -
  have a: "submitAnswer cfg store sid qid a t = (Inr r, store1) \<longrightarrow>
            qs_score s \<le> res_score r \<and> (\<exists>s1. store1 sid = Some s1 \<and> qs_score s1 = res_score r)"
  proof
    assume h: "submitAnswer cfg store sid qid a t = (Inr r, store1)"
    from submitAnswer_score [OF h assms]
    obtain s1 where "store1 sid = Some s1" "qs_score s \<le> qs_score s1" "res_score r = qs_score s1"
      by blast
    then show "qs_score s \<le> res_score r \<and> (\<exists>s1. store1 sid = Some s1 \<and> qs_score s1 = res_score r)"
      by simp
  qed
  have b: "submitAnswer cfg store sid qid a t = (Inl e, store1) \<longrightarrow> store1 = store"
    using submitAnswer_cases [of store sid s cfg qid a t] assms by auto
  have c: "sorted (qs_score s # returned_scores (fst (submit_all cfg store sid calls)))"
    using submit_all_scores [of cfg store sid calls _ _ s] assms
    by (cases "submit_all cfg store sid calls") simp
  from a b c show ?thesis by blast
qed

lemma demo_store_eq:
  "demo_store = [''S'' \<mapsto> \<lparr> qs_session_id = ''S'', qs_user_id = None,
      qs_questions = demo_questions, qs_current_index = 0, qs_score = 0,
      qs_difficulty_level = 1, qs_correct_run = 0, qs_incorrect_run = 0, qs_log = [],
      qs_status = ACTIVE \<rparr>]"
  by (simp add: demo_store_def engine_start_def demo_source_def demo_questions_def Let_def)

lemma demo_run:
  "returned_scores (fst (submit_all demo_config demo_store ''S'' demo_calls)) = [30, 30]
   \<and> successes (fst (submit_all demo_config demo_store ''S'' demo_calls)) = 2"
  by (simp add: demo_store_eq demo_calls_def demo_config_def demo_questions_def submitAnswer_def
      current_question_def grade_and_advance_def grade_def points_def adapt_difficulty_def
      clamp_level_def sanitized_current_def sanitize_def successes_def Let_def)

lemma demo_store_S:
  "demo_store ''S'' = Some \<lparr> qs_session_id = ''S'', qs_user_id = None,
      qs_questions = demo_questions, qs_current_index = 0, qs_score = 0,
      qs_difficulty_level = 1, qs_correct_run = 0, qs_incorrect_run = 0, qs_log = [],
      qs_status = ACTIVE \<rparr>"
  by (simp add: demo_store_eq)

theorem score_non_decreasing_witness:
  "demo_store ''S'' \<noteq> None
   \<and> returned_scores (fst (submit_all demo_config demo_store ''S'' demo_calls)) = [30, 30]
   \<and> sorted (0 # returned_scores (fst (submit_all demo_config demo_store ''S'' demo_calls)))"
proof -
  from score_non_decreasing [where store = demo_store and sid = "''S''" and cfg = demo_config
      and calls = demo_calls, OF demo_store_S]
  have "sorted (0 # returned_scores (fst (submit_all demo_config demo_store ''S'' demo_calls)))"
    by simp
  with demo_run demo_store_S show ?thesis by simp
qed

text \<open>
  Claim C2. Take a session started with \<open>total_questions\<close> questions and any sequence
  of \<open>submitAnswer\<close> calls on it. At most \<open>total_questions\<close> of the calls succeed. If
  exactly \<open>total_questions\<close> succeeded, the session is COMPLETE and any further call
  fails with \<open>SessionNotFound\<close> and returns the store unchanged; with fewer successes
  the session is still ACTIVE.
\<close>

theorem complete_after_all_answers:
  assumes "engine_start store0 sid uid total_questions source = (Inr r0, store1)"
    and "submit_all cfg store1 sid calls = (rs, store)"
  shows "successes rs \<le> nat total_questions
     \<and> (successes rs = nat total_questions \<longrightarrow>
          (\<exists>s. store sid = Some s \<and> qs_status s = COMPLETE)
          \<and> submitAnswer cfg store sid qid a t = (Inl SessionNotFound, store))
     \<and> (successes rs < nat total_questions \<longrightarrow>
          (\<exists>s. store sid = Some s \<and> qs_status s = ACTIVE))"
proof -
  from engine_start_session [OF assms(1)]
  obtain s0 where s0: "store1 sid = Some s0" "well_formed s0" "remaining s0 = nat total_questions"
    by blast
  from submit_all_progress [OF assms(2) s0(1,2)]
  obtain s where s: "store sid = Some s" "well_formed s" "remaining s + successes rs = remaining s0"
    by auto
  from s(3) s0(3) have a: "successes rs \<le> nat total_questions" by simp
  have b: "successes rs = nat total_questions \<longrightarrow>
          (\<exists>s. store sid = Some s \<and> qs_status s = COMPLETE)
          \<and> submitAnswer cfg store sid qid a t = (Inl SessionNotFound, store)"
  proof
    assume "successes rs = nat total_questions"
    with s(3) s0(3) have "remaining s = 0" by simp
    with remaining_zero [OF s(2)] have c: "qs_status s = COMPLETE" by simp
    with s(1) submitAnswer_complete [of store sid s cfg qid a t]
    show "(\<exists>s. store sid = Some s \<and> qs_status s = COMPLETE)
          \<and> submitAnswer cfg store sid qid a t = (Inl SessionNotFound, store)" by simp
  qed
  have c: "successes rs < nat total_questions \<longrightarrow> (\<exists>s. store sid = Some s \<and> qs_status s = ACTIVE)"
  proof
    assume "successes rs < nat total_questions"
    with s(3) s0(3) have "remaining s \<noteq> 0" by simp
    with remaining_zero [OF s(2)] have "qs_status s = ACTIVE" by (cases "qs_status s") simp_all
    with s(1) show "\<exists>s. store sid = Some s \<and> qs_status s = ACTIVE" by simp
  qed
  from a b c show ?thesis by blast
qed

theorem complete_after_all_answers_witness:
  "\<not> isl (fst (engine_start Map.empty ''S'' None 2 demo_source))
   \<and> successes (fst (submit_all demo_config demo_store ''S'' demo_calls)) = nat 2
   \<and> (\<exists>s. snd (submit_all demo_config demo_store ''S'' demo_calls) ''S'' = Some s \<and> qs_status s = COMPLETE)
   \<and> submitAnswer demo_config (snd (submit_all demo_config demo_store ''S'' demo_calls)) ''S'' ''Q2'' 1 12
       = (Inl SessionNotFound, snd (submit_all demo_config demo_store ''S'' demo_calls))"
proof -
  obtain r0 where h1: "engine_start Map.empty ''S'' None 2 demo_source = (Inr r0, demo_store)"
    by (simp add: demo_store_def engine_start_def demo_source_def demo_questions_def Let_def)
  have h2: "submit_all demo_config demo_store ''S'' demo_calls =
      (fst (submit_all demo_config demo_store ''S'' demo_calls),
       snd (submit_all demo_config demo_store ''S'' demo_calls))" by simp
  have h3: "successes (fst (submit_all demo_config demo_store ''S'' demo_calls)) = nat 2"
    using demo_run by simp
  from complete_after_all_answers [OF h1 h2, of "''Q2''" 1 12] h1 h3
  show ?thesis by simp
qed

text \<open>
  Claim C3. Take a session started by the engine, after any sequence of calls, that is
  ACTIVE with current question \<open>q\<close>, under a valid configuration. A \<open>submitAnswer\<close> for
  \<open>q\<close> succeeds, and its \<open>correct\<close> flag holds exactly when \<open>answer_index\<close> is the
  \<open>correct_index\<close> of \<open>q\<close>. The timeout sentinel is graded incorrect, and an incorrect
  answer leaves the score as it was. A correct answer raises the score by the points
  for the remaining time and the current level, which are strictly positive; and the
  points are monotonic in the remaining time and in the level.
\<close>

theorem grading_and_points:
  assumes "valid_config cfg"
    and "engine_start store0 sid uid total_questions source = (Inr r0, store1)"
    and "submit_all cfg store1 sid calls = (rs, store)"
    and "store sid = Some s" and "qs_status s = ACTIVE" and "current_question s = Some q"
  shows "(\<exists>r store'. submitAnswer cfg store sid (q_id q) a t = (Inr r, store')
           \<and> (res_correct r \<longleftrightarrow> a = int (q_correct_index q))
           \<and> (a = TIMEOUT_SENTINEL \<longrightarrow> \<not> res_correct r \<and> res_score r = qs_score s)
           \<and> (\<not> res_correct r \<longrightarrow> res_score r = qs_score s)
           \<and> (res_correct r \<longrightarrow>
                res_score r = qs_score s + points cfg (qs_difficulty_level s) t
                \<and> 0 < points cfg (qs_difficulty_level s) t))
     \<and> (t1 \<le> t2 \<longrightarrow> l1 \<le> l2 \<longrightarrow> points cfg l1 t1 \<le> points cfg l2 t2)"
proof -
  from engine_start_session [OF assms(2)]
  obtain s0 where s0: "store1 sid = Some s0" "well_formed s0" "qs_difficulty_level s0 = 1"
    by blast
  from assms(1) have cfg: "0 < base_points cfg" "0 < level_min cfg" by (simp_all add: valid_config_def)
  from submit_all_progress [OF assms(3) s0(1,2), of ] s0(3) cfg(2) assms(4)
  have lvl: "0 < qs_difficulty_level s" by auto
  with cfg(1) have pos: "0 < points cfg (qs_difficulty_level s) t" by (simp add: points_def)
  obtain r s' where g: "grade_and_advance cfg s q a t = (r, s')"
    by (cases "grade_and_advance cfg s q a t")
  note f = grade_and_advance_facts [OF g]
  from assms(4,5,6) g have call: "submitAnswer cfg store sid (q_id q) a t = (Inr r, store(sid \<mapsto> s'))"
    by (simp add: submitAnswer_def)
  have 1: "res_correct r \<longleftrightarrow> a = int (q_correct_index q)" using f(1) by (simp add: grade_def)
  have 2: "a = TIMEOUT_SENTINEL \<longrightarrow> \<not> res_correct r \<and> res_score r = qs_score s"
    using f(1,3,4) by (auto simp add: grade_def TIMEOUT_SENTINEL_def)
  have 3: "\<not> res_correct r \<longrightarrow> res_score r = qs_score s" using f(1,3,4) by simp
  have 4: "res_correct r \<longrightarrow> res_score r = qs_score s + points cfg (qs_difficulty_level s) t
                \<and> 0 < points cfg (qs_difficulty_level s) t"
    using f(1,3,4) pos by simp
  have 5: "t1 \<le> t2 \<longrightarrow> l1 \<le> l2 \<longrightarrow> points cfg l1 t1 \<le> points cfg l2 t2"
    by (simp add: points_def add_mono)
  from call 1 2 3 4 5 show ?thesis by blast
qed

lemma demo_first_call:
  "map_sum id res_score (fst (submitAnswer demo_config demo_store ''S'' ''Q1'' 0 20)) = Inr 30"
  by (simp add: demo_store_eq demo_config_def demo_questions_def submitAnswer_def
      current_question_def grade_and_advance_def grade_def points_def adapt_difficulty_def
      clamp_level_def sanitized_current_def sanitize_def Let_def)

lemma demo_session_facts:
  "demo_store ''S'' = Some demo_session"
  "qs_status demo_session = ACTIVE"
  "current_question demo_session = Some demo_first"
  "qs_score demo_session = 0"
  "q_id demo_first = ''Q1''"
  "q_correct_index demo_first = 0"
  by (simp_all add: demo_store_eq demo_session_def demo_first_def current_question_def demo_questions_def)

theorem grading_and_points_witness:
  "valid_config demo_config
   \<and> \<not> isl (fst (engine_start Map.empty ''S'' None 2 demo_source))
   \<and> submit_all demo_config demo_store ''S'' [] = ([], demo_store)
   \<and> demo_store ''S'' = Some demo_session \<and> qs_status demo_session = ACTIVE
   \<and> current_question demo_session = Some demo_first
   \<and> (\<exists>r store'. submitAnswer demo_config demo_store ''S'' ''Q1'' 0 20 = (Inr r, store')
          \<and> res_correct r \<and> res_score r = 30)
   \<and> (\<exists>r store'. submitAnswer demo_config demo_store ''S'' ''Q1'' TIMEOUT_SENTINEL 0 = (Inr r, store')
          \<and> \<not> res_correct r \<and> res_score r = 0)"
proof -
  have h1: "valid_config demo_config" by (simp add: valid_config_def demo_config_def)
  obtain r0 where h2: "engine_start Map.empty ''S'' None 2 demo_source = (Inr r0, demo_store)"
    by (simp add: demo_store_def engine_start_def demo_source_def demo_questions_def Let_def)
  have h2': "\<not> isl (fst (engine_start Map.empty ''S'' None 2 demo_source))"
    by (simp add: h2)
  have h3: "submit_all demo_config demo_store ''S'' [] = ([], demo_store)" by simp
  note g = grading_and_points [OF h1 h2 h3 demo_session_facts(1,2,3)]
  from g [of 0 20, THEN conjunct1] have "\<exists>r store'. submitAnswer demo_config demo_store ''S'' ''Q1'' 0 20 = (Inr r, store')
      \<and> (res_correct r \<longleftrightarrow> True)"
    unfolding demo_session_facts by (elim exE conjE) simp
  then obtain r store' where a1: "submitAnswer demo_config demo_store ''S'' ''Q1'' 0 20 = (Inr r, store')"
    and a2: "res_correct r" by auto
  from demo_first_call a1 have a3: "res_score r = 30" by simp
  from g [of TIMEOUT_SENTINEL 0, THEN conjunct1]
  have "\<exists>r store'. submitAnswer demo_config demo_store ''S'' ''Q1'' TIMEOUT_SENTINEL 0 = (Inr r, store')
      \<and> \<not> res_correct r \<and> res_score r = 0"
    unfolding demo_session_facts by (elim exE conjE) simp
  then obtain r2 store2 where
    b1: "submitAnswer demo_config demo_store ''S'' ''Q1'' TIMEOUT_SENTINEL 0 = (Inr r2, store2)"
    and b2: "\<not> res_correct r2" "res_score r2 = 0" by auto
  have A: "\<exists>r store'. submitAnswer demo_config demo_store ''S'' ''Q1'' 0 20 = (Inr r, store')
          \<and> res_correct r \<and> res_score r = 30"
    using a1 a2 a3 by (intro exI [of _ r] exI [of _ store']) simp
  have B: "\<exists>r store'. submitAnswer demo_config demo_store ''S'' ''Q1'' TIMEOUT_SENTINEL 0 = (Inr r, store')
          \<and> \<not> res_correct r \<and> res_score r = 0"
    using b1 b2 by (intro exI [of _ r2] exI [of _ store2]) simp
  show ?thesis
    by (intro conjI h1 h2' h3 demo_session_facts(1,2,3) A B)
qed

end
